theory Spec2Isabelle
  imports Complex_Main "HOL-Library.AList"
begin

section \<open>Data model\<close>

text \<open>
  The refinement plan declares the scheduler's pool record as
  \<^verbatim>\<open>AlivePool = { address, tier, nextRefresh, lastBlockSeen, lastPrice, requestCount,
  lastRequestTime }\<close>. JavaScript numbers that hold counts, block numbers and millisecond
  timestamps are integers here; prices are real numbers (floating-point rounding is not
  part of the model).
\<close>

datatype tier = High | Normal | Low

record AlivePool =
  address :: string
  tier :: tier
  nextRefresh :: int
  lastBlockSeen :: int
  lastPrice :: real
  requestCount :: int
  lastRequestTime :: int

text \<open>\<^verbatim>\<open>createBatches\<close> reads \<^verbatim>\<open>pool.dexType\<close> in addition.\<close>

record DexPool = AlivePool +
  dexType :: string

section \<open>Weight-aware batching (\<^verbatim>\<open>createBatches\<close>)\<close>

definition poolWeight :: "DexPool \<Rightarrow> int" where
  "poolWeight pool = (if dexType pool = ''v2'' then 1 else 2)"

definition batchWeight :: "DexPool list \<Rightarrow> int" where
  "batchWeight b = sum_list (map poolWeight b)"

text \<open>
  The \<^verbatim>\<open>for\<close> loop of \<^verbatim>\<open>createBatches\<close> with its three variables \<^verbatim>\<open>batches\<close>,
  \<^verbatim>\<open>currentBatch\<close> and \<^verbatim>\<open>currentWeight\<close>; the final equation is the
  \<^verbatim>\<open>if (currentBatch.length > 0)\<close> after the loop. \<^verbatim>\<open>MAX_WEIGHT\<close> is a configuration
  constant and is the first argument.
\<close>

fun createBatches_loop ::
  "int \<Rightarrow> DexPool list \<Rightarrow> DexPool list list \<Rightarrow> DexPool list \<Rightarrow> int \<Rightarrow> DexPool list list" where
  "createBatches_loop MAX_WEIGHT [] batches currentBatch currentWeight =
     (if length currentBatch > 0 then batches @ [currentBatch] else batches)"
| "createBatches_loop MAX_WEIGHT (pool # pools) batches currentBatch currentWeight =
     (if currentWeight + poolWeight pool > MAX_WEIGHT
      then createBatches_loop MAX_WEIGHT pools (batches @ [currentBatch]) [pool] (poolWeight pool)
      else createBatches_loop MAX_WEIGHT pools batches (currentBatch @ [pool])
             (currentWeight + poolWeight pool))"

definition createBatches :: "int \<Rightarrow> DexPool list \<Rightarrow> DexPool list list" where
  "createBatches MAX_WEIGHT pools = createBatches_loop MAX_WEIGHT pools [] [] 0"

section \<open>Spot pricing (\<^verbatim>\<open>SpotPricingEngine\<close>)\<close>

text \<open>
  \<^verbatim>\<open>String.prototype.toLowerCase\<close> on the ASCII range, which holds every address the
  engine compares.
\<close>

definition toLowerChar :: "char \<Rightarrow> char" where
  "toLowerChar c =
     (case map_of (zip ''ABCDEFGHIJKLMNOPQRSTUVWXYZ'' ''abcdefghijklmnopqrstuvwxyz'') c of
        Some d \<Rightarrow> d
      | None \<Rightarrow> c)"

definition toLowerCase :: "string \<Rightarrow> string" where
  "toLowerCase s = map toLowerChar s"

text \<open>The two lookup tables at the head of the module, verbatim.\<close>

definition USD_STABLECOINS :: "int \<Rightarrow> string list option" where
  "USD_STABLECOINS n =
     (if n = 1 then Some
        [''0xa0b86991c6218b36c1d19d4a2e9eb0ce3606eb48'',
         ''0xdac17f958d2ee523a2206206994597c13d831ec7'',
         ''0x6b175474e89094c44da98b954eedeac495271d0f'']
      else if n = 137 then Some
        [''0x2791bca1f2de4661ed88a30c99a7a9449aa84174'',
         ''0xc2132d05d31c914a87c6611c10748aeb04b58e8f'',
         ''0x8f3cf7ad23cd3cadbd9735aff958023d60d76ee6'']
      else None)"

definition TOKEN_DECIMALS :: "string \<Rightarrow> int option" where
  "TOKEN_DECIMALS = map_of
     [(''0xa0b86991c6218b36c1d19d4a2e9eb0ce3606eb48'', 6),
      (''0xdac17f958d2ee523a2206206994597c13d831ec7'', 6),
      (''0x6b175474e89094c44da98b954eedeac495271d0f'', 18),
      (''0xc02aaa39b223fe8d0a0e5c4f27ead9083c756cc2'', 18),
      (''0x2260fac5e5542a773aa44fbcfedd86a9abde89b6'', 8),
      (''0x2791bca1f2de4661ed88a30c99a7a9449aa84174'', 6),
      (''0xc2132d05d31c914a87c6611c10748aeb04b58e8f'', 6),
      (''0x8f3cf7ad23cd3cadbd9735aff958023d60d76ee6'', 18),
      (''0x7ceb23fd6bc0add59e62ac25578270cff1b9f619'', 18),
      (''0x0d500b1d8e8ef31e21c99d1db9a6444d3adf1270'', 18)]"

text \<open>
  The collaborators the engine imports are not part of the module and are arguments of the
  model: the registry's \<^verbatim>\<open>pricingRoutes\<close> per chain (\<^verbatim>\<open>storageService.getPoolRegistry\<close>),
  and the two read operations of \<^verbatim>\<open>sharedStateCache\<close>. Of a pool state the engine reads
  \<^verbatim>\<open>sqrtPriceX96\<close>, \<^verbatim>\<open>token0\<close> and \<^verbatim>\<open>token1\<close>; of a token's metadata, \<^verbatim>\<open>decimals\<close>.
\<close>

record PricingRoute =
  pool :: string
  base :: string

record PoolState =
  sqrtPriceX96 :: int
  token0 :: string
  token1 :: string

record TokenMetadata =
  decimals :: "int option"

record PricingEnv =
  pricingRoutes :: "int \<Rightarrow> string \<Rightarrow> PricingRoute list option"
  getPoolState :: "string \<Rightarrow> PoolState option"
  getTokenMetadata :: "string \<Rightarrow> TokenMetadata option"

definition getDecimals :: "PricingEnv \<Rightarrow> string \<Rightarrow> int" where
  "getDecimals env tokenAddress =
     (case TOKEN_DECIMALS (toLowerCase tokenAddress) of
        Some d \<Rightarrow> d
      | None \<Rightarrow>
          (case getTokenMetadata env tokenAddress of
             None \<Rightarrow> 18
           | Some metadata \<Rightarrow> (case decimals metadata of None \<Rightarrow> 18 | Some d \<Rightarrow> d)))"

definition isUsdStablecoin :: "string \<Rightarrow> int \<Rightarrow> bool" where
  "isUsdStablecoin tokenAddress n =
     (case USD_STABLECOINS n of
        None \<Rightarrow> False
      | Some stables \<Rightarrow> toLowerCase tokenAddress \<in> set stables)"

text \<open>
  The two \<^verbatim>\<open>for\<close> loops that choose \<^verbatim>\<open>bestRoute\<close>: the first route with a cached pool
  and a stablecoin base, otherwise the first route with a cached pool.
\<close>

definition selectBestRoute :: "PricingEnv \<Rightarrow> int \<Rightarrow> PricingRoute list \<Rightarrow> PricingRoute option" where
  "selectBestRoute env n routes =
     (case find (\<lambda>route. getPoolState env (pool route) \<noteq> None \<and> isUsdStablecoin (base route) n)
             routes of
        Some route \<Rightarrow> Some route
      | None \<Rightarrow> find (\<lambda>route. getPoolState env (pool route) \<noteq> None) routes)"

text \<open>
  \<^verbatim>\<open>rawPrice\<close> after the decimal adjustment: \<^verbatim>\<open>(Number(sqrtPriceX96) / 2 ** 96) ** 2\<close>
  times \<^verbatim>\<open>Math.pow(10, token0Decimals - token1Decimals)\<close>.
\<close>

definition rawPrice :: "PricingEnv \<Rightarrow> PoolState \<Rightarrow> real" where
  "rawPrice env poolState =
     (let sqrtPrice = real_of_int (sqrtPriceX96 poolState) / 2 ^ 96;
          token0Decimals = getDecimals env (token0 poolState);
          token1Decimals = getDecimals env (token1 poolState);
          decimalAdjustment = power_int 10 (token0Decimals - token1Decimals)
      in sqrtPrice * sqrtPrice * decimalAdjustment)"

text \<open>
  A JavaScript division by zero does not raise: it yields \<^verbatim>\<open>Infinity\<close> or \<^verbatim>\<open>NaN\<close>. The
  model keeps that outcome apart from the real numbers, so that a guard in front of a
  division is visible in the result.
\<close>

datatype jsNumber = Finite real | NonFinite

definition jsDivide :: "real \<Rightarrow> real \<Rightarrow> jsNumber" where
  "jsDivide a b = (if b = 0 then NonFinite else Finite (a / b))"

fun jsTimes :: "jsNumber \<Rightarrow> jsNumber \<Rightarrow> jsNumber" where
  "jsTimes (Finite a) (Finite b) = Finite (a * b)"
| "jsTimes _ _ = NonFinite"

definition priceInBaseToken :: "PricingEnv \<Rightarrow> PoolState \<Rightarrow> string \<Rightarrow> jsNumber" where
  "priceInBaseToken env poolState normalizedToken =
     (let isToken0 = (toLowerCase (token0 poolState) = normalizedToken);
          r = rawPrice env poolState
      in if isToken0 then Finite r else (if r > 0 then jsDivide 1 r else Finite 0))"

text \<open>
  \<^verbatim>\<open>computeSpotPrice\<close> calls itself on the base token of the chosen route and has no depth
  counter, so it is a partial function: the outer \<open>None\<close> is a call that never returns,
  \<open>Some None\<close> is the result \<^verbatim>\<open>null\<close>, and \<open>Some (Some p)\<close> is the price \<open>p\<close>.
\<close>

partial_function (option) computeSpotPrice ::
  "PricingEnv \<Rightarrow> int \<Rightarrow> string \<Rightarrow> jsNumber option option" where
  "computeSpotPrice env n tokenAddress =
     (let normalizedToken = toLowerCase tokenAddress in
      if isUsdStablecoin normalizedToken n then Some (Some (Finite 1))
      else
        (case pricingRoutes env n normalizedToken of
           None \<Rightarrow> Some None
         | Some routes \<Rightarrow>
             if length routes = 0 then Some None
             else
               (case selectBestRoute env n routes of
                  None \<Rightarrow> Some None
                | Some bestRoute \<Rightarrow>
                    (case getPoolState env (pool bestRoute) of
                       None \<Rightarrow> Some None
                     | Some poolState \<Rightarrow>
                         (let priceInBase = priceInBaseToken env poolState normalizedToken in
                          if isUsdStablecoin (base bestRoute) n then Some (Some priceInBase)
                          else
                            Option.bind (computeSpotPrice env n (base bestRoute))
                              (\<lambda>baseUsdPrice.
                                 case baseUsdPrice of
                                   None \<Rightarrow> Some None
                                 | Some b \<Rightarrow> Some (Some (jsTimes priceInBase b))))))))"

text \<open>
  The same function with a bound on the number of nested calls: \<open>computeSpotPrice_depth k\<close>
  gives up (\<open>None\<close>) where the source would enter call number \<open>k + 1\<close>. It is used to
  state how deep the recursion goes.
\<close>

fun computeSpotPrice_depth ::
  "nat \<Rightarrow> PricingEnv \<Rightarrow> int \<Rightarrow> string \<Rightarrow> jsNumber option option" where
  "computeSpotPrice_depth 0 env n tokenAddress = None"
| "computeSpotPrice_depth (Suc k) env n tokenAddress =
     (let normalizedToken = toLowerCase tokenAddress in
      if isUsdStablecoin normalizedToken n then Some (Some (Finite 1))
      else
        (case pricingRoutes env n normalizedToken of
           None \<Rightarrow> Some None
         | Some routes \<Rightarrow>
             if length routes = 0 then Some None
             else
               (case selectBestRoute env n routes of
                  None \<Rightarrow> Some None
                | Some bestRoute \<Rightarrow>
                    (case getPoolState env (pool bestRoute) of
                       None \<Rightarrow> Some None
                     | Some poolState \<Rightarrow>
                         (let priceInBase = priceInBaseToken env poolState normalizedToken in
                          if isUsdStablecoin (base bestRoute) n then Some (Some priceInBase)
                          else
                            Option.bind (computeSpotPrice_depth k env n (base bestRoute))
                              (\<lambda>baseUsdPrice.
                                 case baseUsdPrice of
                                   None \<Rightarrow> Some None
                                 | Some b \<Rightarrow> Some (Some (jsTimes priceInBase b))))))))"

text \<open>
  The part of \<^verbatim>\<open>computeSpotPrice\<close> after the stablecoin shortcut, with the recursive call
  as an argument; \<open>computeSpotPrice\<close> and \<open>computeSpotPrice_depth\<close> are both instances of it
  (lemmas \<open>computeSpotPrice_unfold\<close> and \<open>computeSpotPrice_depth_unfold\<close>).
\<close>

definition routesOf :: "PricingEnv \<Rightarrow> int \<Rightarrow> string \<Rightarrow> PricingRoute list" where
  "routesOf env n tokenAddress =
     (case pricingRoutes env n (toLowerCase tokenAddress) of None \<Rightarrow> [] | Some routes \<Rightarrow> routes)"

definition afterRoute ::
  "PricingEnv \<Rightarrow> int \<Rightarrow> string \<Rightarrow> (string \<Rightarrow> jsNumber option option) \<Rightarrow> jsNumber option option" where
  "afterRoute env n tokenAddress resolveBase =
     (case selectBestRoute env n (routesOf env n tokenAddress) of
        None \<Rightarrow> Some None
      | Some bestRoute \<Rightarrow>
          (case getPoolState env (pool bestRoute) of
             None \<Rightarrow> Some None
           | Some poolState \<Rightarrow>
               if isUsdStablecoin (base bestRoute) n
               then Some (Some (priceInBaseToken env poolState (toLowerCase tokenAddress)))
               else (case resolveBase (base bestRoute) of
                       None \<Rightarrow> None
                     | Some None \<Rightarrow> Some None
                     | Some (Some b) \<Rightarrow>
                         Some (Some (jsTimes
                           (priceInBaseToken env poolState (toLowerCase tokenAddress)) b)))))"

text \<open>
  The registry's two-hop maximum, for the routes of one token: crossing any of its pools
  reaches a stablecoin, or a base token all of whose own routes reach a stablecoin.
\<close>

definition twoHopMaximum :: "PricingEnv \<Rightarrow> int \<Rightarrow> string \<Rightarrow> bool" where
  "twoHopMaximum env n tokenAddress =
     (\<forall>route \<in> set (routesOf env n tokenAddress).
        \<not> isUsdStablecoin (base route) n \<longrightarrow>
        (\<forall>route' \<in> set (routesOf env n (base route)). isUsdStablecoin (base route') n))"

section \<open>Interest tracking (\<^verbatim>\<open>PoolController\<close>)\<close>

text \<open>
  The controller's pools carry their chain. Its \<^verbatim>\<open>aliveSet\<close> is a \<^verbatim>\<open>Map\<close> keyed by the
  string \<^verbatim>\<open>`${chainId}:${poolAddress}`\<close>; the key is the pair here (a chain id prints without
  a colon and pool addresses are hexadecimal, so the string determines the pair, which is
  how \<^verbatim>\<open>cleanupPools\<close> splits it again). The map is an association list in insertion
  order, with \<open>map_of\<close> for \<^verbatim>\<open>get\<close>/\<^verbatim>\<open>has\<close>, \<open>AList.update\<close> for \<^verbatim>\<open>set\<close> and
  \<open>AList.delete\<close> for \<^verbatim>\<open>delete\<close>.
\<close>

text \<open>
  Two listings write a pool's counters. \<^verbatim>\<open>handleTokenInterest\<close> (scenario trace) creates a
  pool with \<^verbatim>\<open>requestCount: 1\<close> and no \<^verbatim>\<open>refCount\<close> property, and increments
  \<^verbatim>\<open>requestCount\<close>. \<^verbatim>\<open>incrementRefCount\<close> and \<^verbatim>\<open>decrementRefCount\<close> (refinement plan)
  and \<^verbatim>\<open>GCManager.cleanupPools\<close> read and write \<^verbatim>\<open>refCount\<close>. The two are separate
  fields. \<^verbatim>\<open>refCount\<close> takes the values a JavaScript property read can give here: the
  property is absent (\<^verbatim>\<open>undefined\<close>), it holds an integer, or it holds \<^verbatim>\<open>NaN\<close>, which is
  what arithmetic on \<^verbatim>\<open>undefined\<close> yields.
\<close>

datatype jsCount = Undefined | Count int | NotANumber

record ControllerPool = AlivePool +
  chainId :: int
  refCount :: jsCount


fun decrementedClamped :: "jsCount \<Rightarrow> jsCount" where
  "decrementedClamped (Count r) = Count (max 0 (r - 1))"
| "decrementedClamped Undefined = NotANumber"
| "decrementedClamped NotANumber = NotANumber"

text \<open>
  The argument of \<^verbatim>\<open>handleTokenInterest\<close>: tokens with their attached \<^verbatim>\<open>pricingPools\<close>
  (the token's own \<^verbatim>\<open>address\<close> field is called \<open>tokenAddr\<close>; the function does not read it).
\<close>

record InterestToken =
  tokenAddr :: string
  pricingPools :: "PricingRoute list"

text \<open>
  The body of the inner loop of \<^verbatim>\<open>handleTokenInterest\<close> for one route, and the two loops.
  \<^verbatim>\<open>Date.now()\<close> is the argument \<open>now\<close>.
\<close>

definition trackRoute ::
  "int \<Rightarrow> int \<Rightarrow> ((int \<times> string) \<times> ControllerPool) list \<Rightarrow> PricingRoute \<Rightarrow>
   ((int \<times> string) \<times> ControllerPool) list" where
  "trackRoute now cid alive route =
     (let poolAddress = pool route; poolKey = (cid, poolAddress) in
      case map_of alive poolKey of
        Some tracked \<Rightarrow>
          AList.update poolKey
            (tracked\<lparr>lastRequestTime := now, requestCount := requestCount tracked + 1\<rparr>)
            alive
      | None \<Rightarrow>
          AList.update poolKey
            \<lparr>address = poolAddress, tier = High, nextRefresh = now + 5000, lastBlockSeen = 0,
             lastPrice = 0, requestCount = 1, lastRequestTime = now, chainId = cid,
             refCount = Undefined\<rparr> alive)"

definition handleTokenInterest ::
  "int \<Rightarrow> InterestToken list \<Rightarrow> int \<Rightarrow> ((int \<times> string) \<times> ControllerPool) list \<Rightarrow>
   ((int \<times> string) \<times> ControllerPool) list" where
  "handleTokenInterest now tokens cid alive =
     foldl (\<lambda>a token. foldl (trackRoute now cid) a (pricingPools token)) alive tokens"


definition decrementRefCount ::
  "string \<Rightarrow> int \<Rightarrow> ((int \<times> string) \<times> ControllerPool) list \<Rightarrow>
   ((int \<times> string) \<times> ControllerPool) list" where
  "decrementRefCount poolAddress cid alive =
     (let poolKey = (cid, poolAddress) in
      case map_of alive poolKey of
        Some tracked \<Rightarrow>
          AList.update poolKey (tracked\<lparr>refCount := decrementedClamped (refCount tracked)\<rparr>)
            alive
      | None \<Rightarrow> alive)"

text \<open>
  A history of calls on the controller: \<open>RegisterInterest now tokens cid\<close> is
  \<^verbatim>\<open>handleTokenInterest(tokens, cid)\<close> at time \<open>now\<close>, and \<open>ReleaseInterest a cid\<close> is
  \<^verbatim>\<open>decrementRefCount(a, cid)\<close>.
\<close>

datatype interestCall =
  RegisterInterest int "InterestToken list" int
| ReleaseInterest string int

fun applyCall ::
  "((int \<times> string) \<times> ControllerPool) list \<Rightarrow> interestCall \<Rightarrow>
   ((int \<times> string) \<times> ControllerPool) list" where
  "applyCall alive (RegisterInterest now tokens cid) = handleTokenInterest now tokens cid alive"
| "applyCall alive (ReleaseInterest poolAddress cid) = decrementRefCount poolAddress cid alive"

definition runCalls ::
  "interestCall list \<Rightarrow> ((int \<times> string) \<times> ControllerPool) list \<Rightarrow>
   ((int \<times> string) \<times> ControllerPool) list" where
  "runCalls calls alive = foldl applyCall alive calls"









section \<open>Pool eviction (\<^verbatim>\<open>GCManager.cleanupPools\<close>)\<close>

text \<open>
  The state the sweep works on: the two singletons it imports and its own map
  \<^verbatim>\<open>poolsWithZeroRefCount\<close> from pool key to the time the count was first seen at zero.
  \<^verbatim>\<open>sharedStateCache\<close> is its \<^verbatim>\<open>poolStateStore\<close>, keyed by pool address.
\<close>

record GCState =
  poolController :: "((int \<times> string) \<times> ControllerPool) list"
  sharedStateCache :: "string \<Rightarrow> PoolState option"
  poolsWithZeroRefCount :: "((int \<times> string) \<times> int) list"



text \<open>
  Step 1 of \<^verbatim>\<open>cleanupPools\<close>, for one pool of the snapshot; \<open>poolKeyOf\<close> is the key the
  sweep builds from the pool, \<^verbatim>\<open>`${pool.chainId}:${pool.address}`\<close>.
\<close>

definition poolKeyOf :: "ControllerPool \<Rightarrow> int \<times> string" where
  "poolKeyOf p = (chainId p, address p)"





text \<open>
  The controller files every pool under the key made of the pool's own chain and address
  (\<^verbatim>\<open>handleTokenInterest\<close> creates them so), and a \<^verbatim>\<open>Map\<close> has each key once.
\<close>

definition keyedByPool :: "((int \<times> string) \<times> ControllerPool) list \<Rightarrow> bool" where
  "keyedByPool alive = list_all (\<lambda>(poolKey, p). poolKey = poolKeyOf p) alive"

definition wellKeyed :: "GCState \<Rightarrow> bool" where
  "wellKeyed s =
     (distinct (map fst (poolController s)) \<and>
      distinct (map fst (poolsWithZeroRefCount s)) \<and>
      keyedByPool (poolController s))"

section \<open>Refresh-result processing (the plan's hot path)\<close>

text \<open>
  A multicall result and a cache entry share the pool's address, the block number and the
  liquidity; the result adds the \<^verbatim>\<open>success\<close> flag, the entry the price, the tick id, the
  timestamp and the \<^verbatim>\<open>ttl\<close>. A tick id is the number of the \<^verbatim>\<open>generateTickId\<close> call that
  produced it.
\<close>

record PoolObservation =
  poolAddress :: string
  blockNumber :: int
  liquidity :: real

record MulticallResult = PoolObservation +
  success :: bool

record CacheEntry = PoolObservation +
  price :: real
  tickId :: nat
  timestamp :: int
  ttl :: int

text \<open>
  In the plan the scheduler's \<^verbatim>\<open>aliveSet\<close> and the \<^verbatim>\<open>cache\<close> are maps keyed by pool address.
\<close>

record SchedulerState =
  aliveSet :: "string \<Rightarrow> AlivePool option"
  cache :: "string \<Rightarrow> CacheEntry option"
  tickCounter :: nat

datatype jsError = TypeError | NetworkError

text \<open>
  A call either returns the state it leaves behind, or throws, leaving behind the state it
  had reached.
\<close>

datatype outcome = Returned SchedulerState | Threw jsError SchedulerState

text \<open>
  Modelled from the spec: \<^verbatim>\<open>generateTickId\<close> is called by \<^verbatim>\<open>processMulticallResults\<close> and
  defined nowhere in the sources. The spec calls the tick identifier "monotonically
  increasing"; every call returns the next value of a counter.
\<close>

definition generateTickId :: "SchedulerState \<Rightarrow> nat \<times> SchedulerState" where
  "generateTickId s = (Suc (tickCounter s), s\<lparr>tickCounter := Suc (tickCounter s)\<rparr>)"

text \<open>
  \<^verbatim>\<open>abs(price - pool.lastPrice) / pool.lastPrice > threshold\<close>. When \<^verbatim>\<open>lastPrice\<close> is 0, as
  it is for a new pool, the quotient is \<^verbatim>\<open>Infinity\<close> for a non-zero price (greater than every
  threshold) and \<^verbatim>\<open>NaN\<close> for a zero price (every comparison false).
\<close>

definition priceDeltaExceeds :: "real \<Rightarrow> real \<Rightarrow> real \<Rightarrow> bool" where
  "priceDeltaExceeds newPrice oldPrice threshold =
     (if oldPrice = 0 then newPrice \<noteq> 0
      else \<bar>newPrice - oldPrice\<bar> / oldPrice > threshold)"

text \<open>
  The body of the loop of \<^verbatim>\<open>processMulticallResults\<close> for one result. \<^verbatim>\<open>computePrice\<close> is
  not defined in the plan and is an argument. Reading \<^verbatim>\<open>pool.lastBlockSeen\<close> of an address
  the alive set does not hold, and writing \<^verbatim>\<open>.ttl\<close> of a cache entry that does not exist,
  throw a \<^verbatim>\<open>TypeError\<close>.
\<close>

definition processResult ::
  "(MulticallResult \<Rightarrow> real) \<Rightarrow> int \<Rightarrow> nat \<Rightarrow> SchedulerState \<Rightarrow> MulticallResult \<Rightarrow> outcome" where
  "processResult computePrice now currentTickId s result =
     (case aliveSet s (poolAddress result) of
        None \<Rightarrow> Threw TypeError s
      | Some p \<Rightarrow>
          if blockNumber result = lastBlockSeen p then
            (case cache s (poolAddress result) of
               None \<Rightarrow> Threw TypeError s
             | Some entry \<Rightarrow>
                 Returned (s\<lparr>cache := (cache s)(poolAddress result \<mapsto> entry\<lparr>ttl := now + 30000\<rparr>)\<rparr>))
          else
            (let newPrice = computePrice result;
                 entry = \<lparr>poolAddress = poolAddress result, blockNumber = blockNumber result,
                          liquidity = liquidity result, price = newPrice,
                          tickId = currentTickId, timestamp = now, ttl = now + 30000\<rparr>;
                 p1 = p\<lparr>lastPrice := newPrice, lastBlockSeen := blockNumber result\<rparr>;
                 p2 = (if priceDeltaExceeds newPrice (lastPrice p) 0.05
                       then p1\<lparr>tier := High, nextRefresh := now + 5000\<rparr>
                       else if priceDeltaExceeds newPrice (lastPrice p) 0.001
                       then p1\<lparr>tier := Normal, nextRefresh := now + 10000\<rparr>
                       else p1\<lparr>tier := Low, nextRefresh := now + 30000\<rparr>)
             in Returned (s\<lparr>cache := (cache s)(poolAddress result \<mapsto> entry),
                            aliveSet := (aliveSet s)(poolAddress result \<mapsto> p2)\<rparr>)))"

fun processResults ::
  "(MulticallResult \<Rightarrow> real) \<Rightarrow> int \<Rightarrow> nat \<Rightarrow> SchedulerState \<Rightarrow> MulticallResult list \<Rightarrow> outcome" where
  "processResults computePrice now currentTickId s [] = Returned s"
| "processResults computePrice now currentTickId s (result # results) =
     (case processResult computePrice now currentTickId s result of
        Threw e s' \<Rightarrow> Threw e s'
      | Returned s' \<Rightarrow> processResults computePrice now currentTickId s' results)"

definition processMulticallResults ::
  "(MulticallResult \<Rightarrow> real) \<Rightarrow> int \<Rightarrow> MulticallResult list \<Rightarrow> SchedulerState \<Rightarrow> outcome" where
  "processMulticallResults computePrice now results s =
     (let (currentTickId, s') = generateTickId s
      in processResults computePrice now currentTickId s' results)"

text \<open>
  The plan does not list the caller of \<^verbatim>\<open>processMulticallResults\<close>. Its argument is one
  result list, and \<^verbatim>\<open>multicall.execute(batch, provider)\<close> returns the results of one batch
  (\<^verbatim>\<open>distributeBatches\<close> executes the batches of a cycle one by one), so a cycle with
  several batches makes one call per batch; \<open>processCycle\<close> makes these calls in the order
  in which the batches complete, each on the state the previous one left.
\<close>

fun stateOf :: "outcome \<Rightarrow> SchedulerState" where
  "stateOf (Returned s) = s"
| "stateOf (Threw e s) = s"

definition processCycle ::
  "(MulticallResult \<Rightarrow> real) \<Rightarrow> int \<Rightarrow> MulticallResult list list \<Rightarrow> SchedulerState \<Rightarrow>
   SchedulerState" where
  "processCycle computePrice now batchResults s =
     foldl (\<lambda>s' results. stateOf (processMulticallResults computePrice now results s'))
       s batchResults"

section \<open>Failure isolation (the plan's \<^verbatim>\<open>try\<close>/\<^verbatim>\<open>catch\<close> around \<^verbatim>\<open>multicall.execute\<close>)\<close>

text \<open>
  Modelled from the spec: \<^verbatim>\<open>updateCache\<close> is called in the \<^verbatim>\<open>try\<close> block and defined nowhere
  in the sources. The spec has a successful result "write a new CacheEntry tagged with the
  cycle's tick id"; the entry is the one \<^verbatim>\<open>processMulticallResults\<close> builds, stored under
  the result's pool address.
\<close>

definition updateCache ::
  "(MulticallResult \<Rightarrow> real) \<Rightarrow> int \<Rightarrow> nat \<Rightarrow> MulticallResult \<Rightarrow> SchedulerState \<Rightarrow> SchedulerState"
  where
  "updateCache computePrice now currentTickId result s =
     s\<lparr>cache := (cache s)(poolAddress result \<mapsto>
          \<lparr>poolAddress = poolAddress result, blockNumber = blockNumber result,
           liquidity = liquidity result, price = computePrice result,
           tickId = currentTickId, timestamp = now, ttl = now + 30000\<rparr>)\<rparr>"

text \<open>
  Modelled from the spec: \<^verbatim>\<open>scheduleRetry\<close> is called in both branches and defined nowhere
  in the sources. The spec has a failed pool "due again after a short retry delay"; the
  pool's \<^verbatim>\<open>nextRefresh\<close> is set to \<open>now + retryDelay\<close>, and an address the alive set does not
  hold is left alone.
\<close>

definition scheduleRetry :: "int \<Rightarrow> int \<Rightarrow> string \<Rightarrow> SchedulerState \<Rightarrow> SchedulerState" where
  "scheduleRetry now retryDelay a s =
     (case aliveSet s a of
        None \<Rightarrow> s
      | Some p \<Rightarrow> s\<lparr>aliveSet := (aliveSet s)(a \<mapsto> p\<lparr>nextRefresh := now + retryDelay\<rparr>)\<rparr>)"

text \<open>
  The \<^verbatim>\<open>try\<close>/\<^verbatim>\<open>catch\<close>: \<open>execution\<close> is what \<^verbatim>\<open>multicall.execute(batch, provider)\<close> did, the
  per-pool results (\<open>Inr\<close>) or a thrown network error (\<open>Inl\<close>).
\<close>

definition handleResult ::
  "(MulticallResult \<Rightarrow> real) \<Rightarrow> int \<Rightarrow> int \<Rightarrow> nat \<Rightarrow> SchedulerState \<Rightarrow> MulticallResult \<Rightarrow>
   SchedulerState" where
  "handleResult computePrice now retryDelay currentTickId s result =
     (if success result then updateCache computePrice now currentTickId result s
      else scheduleRetry now retryDelay (poolAddress result) s)"

definition refreshBatch ::
  "(MulticallResult \<Rightarrow> real) \<Rightarrow> int \<Rightarrow> int \<Rightarrow> nat \<Rightarrow> jsError + MulticallResult list \<Rightarrow>
   AlivePool list \<Rightarrow> SchedulerState \<Rightarrow> SchedulerState" where
  "refreshBatch computePrice now retryDelay currentTickId execution batch s =
     (case execution of
        Inr results \<Rightarrow> foldl (handleResult computePrice now retryDelay currentTickId) s results
      | Inl error \<Rightarrow> foldl (\<lambda>s' p. scheduleRetry now retryDelay (address p) s') s batch)"

text \<open>
  A pool is due for retry at time \<open>t\<close> when the alive set holds it with \<^verbatim>\<open>nextRefresh\<close> equal
  to \<open>t\<close>; \<open>isAlive\<close> is \<^verbatim>\<open>aliveSet.has\<close>.
\<close>

definition retryDue :: "int \<Rightarrow> string \<Rightarrow> SchedulerState \<Rightarrow> bool" where
  "retryDue t a s = (map_option nextRefresh (aliveSet s a) = Some t)"

definition isAlive :: "string \<Rightarrow> SchedulerState \<Rightarrow> bool" where
  "isAlive a s = (aliveSet s a \<noteq> None)"

section \<open>Example data\<close>

text \<open>
  A registry on chain 1 with one two-hop route: the token \<open>exampleToken\<close> is priced through
  a pool against WETH, and WETH through the USDC/WETH pool. A second token has a route whose
  pool is not cached, a third one a pool whose \<^verbatim>\<open>sqrtPriceX96\<close> is zero. The pool states
  spell the token addresses in mixed case, as the chain reports them.
\<close>

definition exampleToken :: string where
  "exampleToken = ''0x1111111111111111111111111111111111111111''"

definition WETH :: string where
  "WETH = ''0xc02aaa39b223fe8d0a0e5c4f27ead9083c756cc2''"

definition USDC :: string where
  "USDC = ''0xa0b86991c6218b36c1d19d4a2e9eb0ce3606eb48''"

definition exampleTokenPool :: PoolState where
  "exampleTokenPool =
     \<lparr>sqrtPriceX96 = 2 * 2 ^ 96,
      token0 = ''0x1111111111111111111111111111111111111111'',
      token1 = ''0xC02aaA39b223FE8D0A0e5C4F27eAD9083C756Cc2''\<rparr>"

definition usdcWethPool :: PoolState where
  "usdcWethPool =
     \<lparr>sqrtPriceX96 = 20000 * 2 ^ 96,
      token0 = ''0xA0b86991c6218b36c1d19D4a2e9Eb0cE3606eB48'',
      token1 = ''0xC02aaA39b223FE8D0A0e5C4F27eAD9083C756Cc2''\<rparr>"

definition unpricedPool :: PoolState where
  "unpricedPool =
     \<lparr>sqrtPriceX96 = 0,
      token0 = ''0xA0b86991c6218b36c1d19D4a2e9Eb0cE3606eB48'',
      token1 = ''0x4444444444444444444444444444444444444444''\<rparr>"

definition exampleEnv :: PricingEnv where
  "exampleEnv =
     \<lparr>pricingRoutes = (\<lambda>n. if n = 1 then map_of
          [(exampleToken, [\<lparr>pool = ''0xpool1'', base = WETH\<rparr>]),
           (WETH, [\<lparr>pool = ''0xpool2'', base = USDC\<rparr>]),
           (''0x2222222222222222222222222222222222222222'',
              [\<lparr>pool = ''0xpool3'', base = USDC\<rparr>]),
           (''0x4444444444444444444444444444444444444444'',
              [\<lparr>pool = ''0xpool4'', base = USDC\<rparr>])]
        else Map.empty),
      getPoolState = map_of
        [(''0xpool1'', exampleTokenPool), (''0xpool2'', usdcWethPool), (''0xpool4'', unpricedPool)],
      getTokenMetadata = Map.empty\<rparr>"

text \<open>Two scheduled pools, one of each AMM kind.\<close>

definition v2Pool :: DexPool where
  "v2Pool =
     \<lparr>address = ''0xpoolv2'', tier = High, nextRefresh = 0, lastBlockSeen = 0, lastPrice = 0,
      requestCount = 1, lastRequestTime = 0, dexType = ''v2''\<rparr>"

definition v3Pool :: DexPool where
  "v3Pool =
     \<lparr>address = ''0xpoolv3'', tier = High, nextRefresh = 0, lastBlockSeen = 0, lastPrice = 0,
      requestCount = 1, lastRequestTime = 0, dexType = ''v3''\<rparr>"











text \<open>
  A scheduler state with two pools last seen at block 10, their cache entries written on
  tick 0, and a \<^verbatim>\<open>computePrice\<close> that prices every result at 2600.
\<close>

definition schedulerPool :: "string \<Rightarrow> int \<Rightarrow> real \<Rightarrow> AlivePool" where
  "schedulerPool a blk prc =
     \<lparr>address = a, tier = High, nextRefresh = 5000, lastBlockSeen = blk, lastPrice = prc,
      requestCount = 1, lastRequestTime = 0\<rparr>"

definition entryAt :: "string \<Rightarrow> int \<Rightarrow> real \<Rightarrow> nat \<Rightarrow> CacheEntry" where
  "entryAt a blk prc tick =
     \<lparr>poolAddress = a, blockNumber = blk, liquidity = 0, price = prc, tickId = tick,
      timestamp = 0, ttl = 30000\<rparr>"

definition resultAt :: "string \<Rightarrow> int \<Rightarrow> bool \<Rightarrow> MulticallResult" where
  "resultAt a blk ok = \<lparr>poolAddress = a, blockNumber = blk, liquidity = 0, success = ok\<rparr>"

definition flatPrice :: "MulticallResult \<Rightarrow> real" where
  "flatPrice r = 2600"

definition schedulerState :: SchedulerState where
  "schedulerState =
     \<lparr>aliveSet = map_of
        [(''0xpoolA'', schedulerPool ''0xpoolA'' 10 2500),
         (''0xpoolB'', schedulerPool ''0xpoolB'' 10 2500)],
      cache = map_of
        [(''0xpoolA'', entryAt ''0xpoolA'' 10 2500 0),
         (''0xpoolB'', entryAt ''0xpoolB'' 10 2500 0)],
      tickCounter = 0\<rparr>"

section \<open>Properties of \<^verbatim>\<open>createBatches\<close>\<close>

lemma poolWeight_pos: "0 < poolWeight p"
  by (simp add: poolWeight_def)

lemma createBatches_loop_concat:
  "concat (createBatches_loop M ps bs cb cw) = concat bs @ cb @ ps"
  by (induction ps arbitrary: bs cb cw) auto

lemma createBatches_loop_keeps:
  "set bs \<subseteq> set (createBatches_loop M ps bs cb cw)"
proof (induction ps arbitrary: bs cb cw)
  case Nil
  then show ?case by auto
next
  case (Cons p ps)
  have "set bs \<subseteq> set (bs @ [cb])" by auto
  with Cons.IH [of "bs @ [cb]" "[p]" "poolWeight p"] Cons.IH [of bs "cb @ [p]" "cw + poolWeight p"]
  show ?case by auto
qed

lemma createBatches_loop_bound:
  assumes "\<forall>p \<in> set ps. poolWeight p \<le> M"
    and "\<forall>b \<in> set bs. batchWeight b \<le> M \<and> b \<noteq> []"
    and "cw = batchWeight cb"
    and "cb \<noteq> [] \<longrightarrow> cw \<le> M"
  shows "\<forall>b \<in> set (createBatches_loop M ps bs cb cw). batchWeight b \<le> M \<and> b \<noteq> []"
  using assms
proof (induction ps arbitrary: bs cb cw)
  case Nil
  then show ?case by auto
next
  case (Cons p ps)
  have wp: "poolWeight p \<le> M" using Cons.prems(1) by simp
  have rest: "\<forall>q \<in> set ps. poolWeight q \<le> M" using Cons.prems(1) by simp
  show ?case
  proof (cases "cw + poolWeight p > M")
    case True
    have ne: "cb \<noteq> []"
    proof
      assume "cb = []"
      with Cons.prems(3) have "cw = 0" by (simp add: batchWeight_def)
      with True wp show False by simp
    qed
    have bs': "\<forall>b \<in> set (bs @ [cb]). batchWeight b \<le> M \<and> b \<noteq> []"
      using Cons.prems(2,3,4) ne by auto
    have one: "poolWeight p = batchWeight [p]" by (simp add: batchWeight_def)
    have le: "[p] \<noteq> [] \<longrightarrow> poolWeight p \<le> M" using wp by simp
    have "\<forall>b \<in> set (createBatches_loop M ps (bs @ [cb]) [p] (poolWeight p)).
            batchWeight b \<le> M \<and> b \<noteq> []"
      using Cons.IH [of "bs @ [cb]" "poolWeight p" "[p]"] rest bs' one le by blast
    with True show ?thesis by simp
  next
    case False
    have sum: "cw + poolWeight p = batchWeight (cb @ [p])"
      using Cons.prems(3) by (simp add: batchWeight_def)
    have le: "cb @ [p] \<noteq> [] \<longrightarrow> cw + poolWeight p \<le> M" using False by simp
    have "\<forall>b \<in> set (createBatches_loop M ps bs (cb @ [p]) (cw + poolWeight p)).
            batchWeight b \<le> M \<and> b \<noteq> []"
      using Cons.IH [of bs "cw + poolWeight p" "cb @ [p]"] rest Cons.prems(2) sum le by blast
    with False show ?thesis by simp
  qed
qed

lemma createBatches_loop_flush:
  assumes "M < cw"
  shows "[q] \<in> set (createBatches_loop M ps bs [q] cw)"
proof (cases ps)
  case Nil
  then show ?thesis by simp
next
  case (Cons p ps')
  have "M < cw + poolWeight p" using assms poolWeight_pos [of p] by arith
  moreover have "[q] \<in> set (bs @ [[q]])" by simp
  ultimately show ?thesis
    using Cons createBatches_loop_keeps [of "bs @ [[q]]" M ps' "[p]" "poolWeight p"] by auto
qed

lemma createBatches_loop_oversize:
  assumes "p \<in> set ps" and "M < poolWeight p" and "0 \<le> cw"
  shows "[p] \<in> set (createBatches_loop M ps bs cb cw)"
  using assms
proof (induction ps arbitrary: bs cb cw)
  case Nil
  then show ?case by simp
next
  case (Cons x xs)
  have nonneg: "0 \<le> cw + poolWeight x" using Cons.prems(3) poolWeight_pos [of x] by arith
  show ?case
  proof (cases "x = p")
    case True
    have "M < cw + poolWeight p" using Cons.prems(2,3) by arith
    with True Cons.prems(2) createBatches_loop_flush [of M "poolWeight p" p xs "bs @ [cb]"]
    show ?thesis by simp
  next
    case False
    with Cons.prems(1) have mem: "p \<in> set xs" by simp
    have pw: "0 \<le> poolWeight x" using poolWeight_pos [of x] by arith
    from Cons.IH [OF mem Cons.prems(2) pw, of "bs @ [cb]" "[x]"]
         Cons.IH [OF mem Cons.prems(2) nonneg, of bs "cb @ [x]"]
    show ?thesis by simp
  qed
qed

text \<open>
  Claim C4. For every list of due pools, \<^verbatim>\<open>createBatches\<close> returns batches whose
  concatenation is the input list in its order, so no pool is dropped. When every pool's own
  weight is at most the ceiling, every batch is non-empty and its summed weight is at most
  the ceiling. A pool whose weight alone exceeds the ceiling is still emitted, as a batch of
  its own.
\<close>

theorem createBatches_partition_bound:
  "concat (createBatches MAX_WEIGHT pools) = pools \<and>
   ((\<forall>p \<in> set pools. poolWeight p \<le> MAX_WEIGHT) \<longrightarrow>
      (\<forall>b \<in> set (createBatches MAX_WEIGHT pools). b \<noteq> [] \<and> batchWeight b \<le> MAX_WEIGHT)) \<and>
   (\<forall>p \<in> set pools. MAX_WEIGHT < poolWeight p \<longrightarrow> [p] \<in> set (createBatches MAX_WEIGHT pools))"
proof -
  have part: "concat (createBatches MAX_WEIGHT pools) = pools"
    by (simp add: createBatches_def createBatches_loop_concat)
  have bound: "\<forall>b \<in> set (createBatches MAX_WEIGHT pools). b \<noteq> [] \<and> batchWeight b \<le> MAX_WEIGHT"
    if "\<forall>p \<in> set pools. poolWeight p \<le> MAX_WEIGHT"
    using that createBatches_loop_bound [of pools MAX_WEIGHT "[]" 0 "[]"]
    by (auto simp: createBatches_def batchWeight_def)
  have own: "[p] \<in> set (createBatches MAX_WEIGHT pools)"
    if "p \<in> set pools" and "MAX_WEIGHT < poolWeight p" for p
    using createBatches_loop_oversize [OF that, of 0 "[]" "[]"]
    by (simp add: createBatches_def)
  from part bound own show ?thesis by blast
qed


theorem createBatches_partition_bound_witness:
  "list_all (\<lambda>p. poolWeight p \<le> 3) [v2Pool, v3Pool, v2Pool, v3Pool] \<and>
   concat (createBatches 3 [v2Pool, v3Pool, v2Pool, v3Pool]) = [v2Pool, v3Pool, v2Pool, v3Pool] \<and>
   list_all (\<lambda>b. b \<noteq> [] \<and> batchWeight b \<le> 3)
     (createBatches 3 [v2Pool, v3Pool, v2Pool, v3Pool]) \<and>
   createBatches 3 [v2Pool, v3Pool, v2Pool, v3Pool] = [[v2Pool, v3Pool], [v2Pool, v3Pool]] \<and>
   v3Pool \<in> set [v2Pool, v3Pool] \<and> 1 < poolWeight v3Pool \<and>
   [v3Pool] \<in> set (createBatches 1 [v2Pool, v3Pool])"
proof -
  have w: "\<forall>p \<in> set [v2Pool, v3Pool, v2Pool, v3Pool]. poolWeight p \<le> 3"
    by (simp add: poolWeight_def v2Pool_def v3Pool_def)
  have e: "createBatches 3 [v2Pool, v3Pool, v2Pool, v3Pool] = [[v2Pool, v3Pool], [v2Pool, v3Pool]]"
    by (simp add: createBatches_def poolWeight_def v2Pool_def v3Pool_def)
  have o: "v3Pool \<in> set [v2Pool, v3Pool] \<and> 1 < poolWeight v3Pool"
    by (simp add: poolWeight_def v3Pool_def)
  from w createBatches_partition_bound [of 3 "[v2Pool, v3Pool, v2Pool, v3Pool]"]
  have b: "concat (createBatches 3 [v2Pool, v3Pool, v2Pool, v3Pool])
             = [v2Pool, v3Pool, v2Pool, v3Pool] \<and>
           (\<forall>b \<in> set (createBatches 3 [v2Pool, v3Pool, v2Pool, v3Pool]).
              b \<noteq> [] \<and> batchWeight b \<le> 3)"
    by blast
  from o createBatches_partition_bound [of 1 "[v2Pool, v3Pool]"]
  have s: "[v3Pool] \<in> set (createBatches 1 [v2Pool, v3Pool])"
    by blast
  from w e o b s show ?thesis
    unfolding list_all_iff by blast
qed

section \<open>Properties of the spot pricing engine\<close>

lemma toLowerCase_idem: "toLowerCase (toLowerCase s) = toLowerCase s"
proof -
  have "toLowerChar (toLowerChar c) = toLowerChar c" for c
    by (simp add: toLowerChar_def)
  then show ?thesis by (simp add: toLowerCase_def)
qed

lemma isUsdStablecoin_normalized:
  "isUsdStablecoin (toLowerCase tokenAddress) n = isUsdStablecoin tokenAddress n"
  by (simp only: isUsdStablecoin_def toLowerCase_idem)

lemma selectBestRoute_Nil: "selectBestRoute env n [] = None"
  by (simp add: selectBestRoute_def)

lemma selectBestRoute_cached:
  "selectBestRoute env n routes = Some r \<Longrightarrow> r \<in> set routes \<and> getPoolState env (pool r) \<noteq> None"
  by (auto simp: selectBestRoute_def find_Some_iff split: option.splits)

lemma selectBestRoute_None:
  "(\<forall>r \<in> set routes. getPoolState env (pool r) = None) \<Longrightarrow> selectBestRoute env n routes = None"
  by (auto simp: selectBestRoute_def find_None_iff split: option.splits)

lemma computeSpotPrice_unfold:
  "computeSpotPrice env n tokenAddress =
     (if isUsdStablecoin tokenAddress n then Some (Some (Finite 1))
      else afterRoute env n tokenAddress (computeSpotPrice env n))"
  by (subst computeSpotPrice.simps)
     (auto simp: afterRoute_def isUsdStablecoin_normalized routesOf_def selectBestRoute_Nil
           split: option.splits)

lemma computeSpotPrice_depth_unfold:
  "computeSpotPrice_depth (Suc k) env n tokenAddress =
     (if isUsdStablecoin tokenAddress n then Some (Some (Finite 1))
      else afterRoute env n tokenAddress (computeSpotPrice_depth k env n))"
  by (auto simp: afterRoute_def isUsdStablecoin_normalized routesOf_def selectBestRoute_Nil
           split: option.splits)

declare computeSpotPrice_depth.simps(2) [simp del]

lemma afterRoute_mono:
  assumes "\<And>t r. f t = Some r \<Longrightarrow> g t = Some r" and "afterRoute env n t f = Some r"
  shows "afterRoute env n t g = Some r"
  using assms(2) by (auto simp: afterRoute_def split: option.splits if_splits dest: assms(1))

lemma depth_sound:
  "computeSpotPrice_depth k env n t = Some r \<Longrightarrow> computeSpotPrice env n t = Some r"
proof (induction k arbitrary: t r)
  case 0
  then show ?case by simp
next
  case (Suc k)
  show ?case
  proof (cases "isUsdStablecoin t n")
    case True
    with Suc.prems show ?thesis
      by (simp add: computeSpotPrice_unfold computeSpotPrice_depth_unfold)
  next
    case False
    with Suc.prems have "afterRoute env n t (computeSpotPrice_depth k env n) = Some r"
      by (simp add: computeSpotPrice_depth_unfold)
    then have "afterRoute env n t (computeSpotPrice env n) = Some r"
      by (rule afterRoute_mono [rotated]) (rule Suc.IH)
    with False show ?thesis by (subst computeSpotPrice_unfold) simp
  qed
qed

lemma depth_one_total:
  assumes "\<forall>route \<in> set (routesOf env n t). isUsdStablecoin (base route) n"
  shows "computeSpotPrice_depth (Suc 0) env n t \<noteq> None"
proof (cases "isUsdStablecoin t n")
  case True
  then show ?thesis by (simp add: computeSpotPrice_depth_unfold)
next
  case False
  show ?thesis
  proof (cases "selectBestRoute env n (routesOf env n t)")
    case None
    with False show ?thesis by (simp add: computeSpotPrice_depth_unfold afterRoute_def)
  next
    case (Some br)
    with assms selectBestRoute_cached have "isUsdStablecoin (base br) n" by blast
    with False Some show ?thesis
      by (simp add: computeSpotPrice_depth_unfold afterRoute_def split: option.splits)
  qed
qed

lemma depth_two_total:
  assumes "twoHopMaximum env n t"
  shows "computeSpotPrice_depth (Suc (Suc 0)) env n t \<noteq> None"
proof (cases "isUsdStablecoin t n")
  case True
  then show ?thesis by (simp add: computeSpotPrice_depth_unfold)
next
  case False
  show ?thesis
  proof (cases "selectBestRoute env n (routesOf env n t)")
    case None
    with False show ?thesis by (simp add: computeSpotPrice_depth_unfold afterRoute_def)
  next
    case (Some br)
    then have mem: "br \<in> set (routesOf env n t)" using selectBestRoute_cached by blast
    show ?thesis
    proof (cases "isUsdStablecoin (base br) n")
      case True
      with False Some show ?thesis
        by (simp add: computeSpotPrice_depth_unfold [of "Suc 0"] afterRoute_def split: option.splits)
    next
      case nb: False
      with assms mem have "\<forall>route' \<in> set (routesOf env n (base br)). isUsdStablecoin (base route') n"
        by (auto simp: twoHopMaximum_def)
      then have "computeSpotPrice_depth (Suc 0) env n (base br) \<noteq> None"
        by (rule depth_one_total)
      with False Some nb show ?thesis
        by (auto simp: computeSpotPrice_depth_unfold [of "Suc 0"] afterRoute_def split: option.splits)
    qed
  qed
qed






lemma priceInBaseToken_other:
  "toLowerCase (token0 poolState) \<noteq> tok \<Longrightarrow>
   priceInBaseToken env poolState tok =
     (if 0 < rawPrice env poolState then Finite (1 / rawPrice env poolState) else Finite 0)"
  by (simp add: priceInBaseToken_def jsDivide_def)

lemma computeSpotPrice_stable_base:
  assumes "\<not> isUsdStablecoin tokenAddress n"
    and "selectBestRoute env n (routesOf env n tokenAddress) = Some bestRoute"
    and "getPoolState env (pool bestRoute) = Some poolState"
    and "isUsdStablecoin (base bestRoute) n"
  shows "computeSpotPrice env n tokenAddress =
           Some (Some (priceInBaseToken env poolState (toLowerCase tokenAddress)))"
  using assms by (subst computeSpotPrice_unfold) (simp add: afterRoute_def)

text \<open>
  Claim C7. For a token that is a known USD stablecoin on the chain, \<^verbatim>\<open>computeSpotPrice\<close>
  returns 1.0 whatever the registry and the cache hold. For any other token it returns
  \<^verbatim>\<open>null\<close>, as a value, when the registry has no route for the token (no entry, or an
  empty list) and when no route of the token has a cached pool state.
\<close>

theorem computeSpotPrice_stable_or_absent:
  "(isUsdStablecoin tokenAddress n \<longrightarrow>
      (\<forall>env. computeSpotPrice env n tokenAddress = Some (Some (Finite 1)))) \<and>
   (\<not> isUsdStablecoin tokenAddress n \<and>
      (pricingRoutes env n (toLowerCase tokenAddress) = None \<or>
       pricingRoutes env n (toLowerCase tokenAddress) = Some []) \<longrightarrow>
      computeSpotPrice env n tokenAddress = Some None) \<and>
   (\<not> isUsdStablecoin tokenAddress n \<and>
      (\<forall>route \<in> set (routesOf env n tokenAddress). getPoolState env (pool route) = None) \<longrightarrow>
      computeSpotPrice env n tokenAddress = Some None)"
proof -
  have a: "\<forall>env. computeSpotPrice env n tokenAddress = Some (Some (Finite 1))"
    if "isUsdStablecoin tokenAddress n"
    using that by (simp add: computeSpotPrice_unfold)
  have b: "computeSpotPrice env n tokenAddress = Some None"
    if "\<not> isUsdStablecoin tokenAddress n"
      and "pricingRoutes env n (toLowerCase tokenAddress) = None \<or>
           pricingRoutes env n (toLowerCase tokenAddress) = Some []"
  proof -
    from that(2) have "routesOf env n tokenAddress = []" by (auto simp: routesOf_def)
    with that(1) show ?thesis
      by (simp add: computeSpotPrice_unfold afterRoute_def selectBestRoute_Nil)
  qed
  have c: "computeSpotPrice env n tokenAddress = Some None"
    if "\<not> isUsdStablecoin tokenAddress n"
      and "\<forall>route \<in> set (routesOf env n tokenAddress). getPoolState env (pool route) = None"
    using that by (simp add: computeSpotPrice_unfold afterRoute_def selectBestRoute_None)
  from a b c show ?thesis by blast
qed

theorem computeSpotPrice_stable_or_absent_witness:
  "isUsdStablecoin ''0xA0b86991c6218b36c1d19D4a2e9Eb0cE3606eB48'' 1 \<and>
   computeSpotPrice exampleEnv 1 ''0xA0b86991c6218b36c1d19D4a2e9Eb0cE3606eB48'' =
     Some (Some (Finite 1)) \<and>
   \<not> isUsdStablecoin ''0x3333333333333333333333333333333333333333'' 1 \<and>
   pricingRoutes exampleEnv 1 (toLowerCase ''0x3333333333333333333333333333333333333333'') = None \<and>
   computeSpotPrice exampleEnv 1 ''0x3333333333333333333333333333333333333333'' = Some None \<and>
   \<not> isUsdStablecoin ''0x2222222222222222222222222222222222222222'' 1 \<and>
   list_all (\<lambda>route. getPoolState exampleEnv (pool route) = None)
     (routesOf exampleEnv 1 ''0x2222222222222222222222222222222222222222'') \<and>
   computeSpotPrice exampleEnv 1 ''0x2222222222222222222222222222222222222222'' = Some None"
proof -
  have s1: "isUsdStablecoin ''0xA0b86991c6218b36c1d19D4a2e9Eb0cE3606eB48'' 1"
    by code_simp
  have s2: "\<not> isUsdStablecoin ''0x3333333333333333333333333333333333333333'' 1"
    by code_simp
  have r2: "pricingRoutes exampleEnv 1 (toLowerCase ''0x3333333333333333333333333333333333333333'')
              = None"
    by code_simp
  have s3: "\<not> isUsdStablecoin ''0x2222222222222222222222222222222222222222'' 1"
    by code_simp
  have r3: "\<forall>route \<in> set (routesOf exampleEnv 1 ''0x2222222222222222222222222222222222222222'').
              getPoolState exampleEnv (pool route) = None"
    by code_simp
  from s1 s2 r2 s3 r3
    computeSpotPrice_stable_or_absent
      [of "''0xA0b86991c6218b36c1d19D4a2e9Eb0cE3606eB48''" 1 exampleEnv]
    computeSpotPrice_stable_or_absent
      [of "''0x3333333333333333333333333333333333333333''" 1 exampleEnv]
    computeSpotPrice_stable_or_absent
      [of "''0x2222222222222222222222222222222222222222''" 1 exampleEnv]
  show ?thesis unfolding list_all_iff by blast
qed




text \<open>
  Claim C9. When the base token of the selected route is not a stablecoin,
  \<^verbatim>\<open>computeSpotPrice\<close> resolves the base token's USD price by a recursive call and returns
  the product (or \<^verbatim>\<open>null\<close> when the base has no price). For a token whose routes respect the
  registry's two-hop maximum the call returns, and two nested calls, the token's and one for
  the base, are all it makes.
\<close>

theorem computeSpotPrice_two_hop_terminates:
  assumes "twoHopMaximum env n tokenAddress"
  shows "(\<exists>r. computeSpotPrice env n tokenAddress = Some r) \<and>
         computeSpotPrice env n tokenAddress = computeSpotPrice_depth 2 env n tokenAddress \<and>
         (\<forall>bestRoute poolState.
            \<not> isUsdStablecoin tokenAddress n \<and>
            selectBestRoute env n (routesOf env n tokenAddress) = Some bestRoute \<and>
            getPoolState env (pool bestRoute) = Some poolState \<and>
            \<not> isUsdStablecoin (base bestRoute) n \<longrightarrow>
            (\<exists>baseResult. computeSpotPrice env n (base bestRoute) = Some baseResult \<and>
               computeSpotPrice env n tokenAddress =
                 Some (case baseResult of
                         None \<Rightarrow> None
                       | Some b \<Rightarrow> Some (jsTimes
                           (priceInBaseToken env poolState (toLowerCase tokenAddress)) b))))"
proof -
  have two: "2 = Suc (Suc 0)" by simp
  from depth_two_total [OF assms] obtain r where r: "computeSpotPrice_depth 2 env n tokenAddress = Some r"
    by (auto simp: two)
  then have full: "computeSpotPrice env n tokenAddress = Some r" by (rule depth_sound)
  have hop: "\<exists>baseResult. computeSpotPrice env n (base bestRoute) = Some baseResult \<and>
               computeSpotPrice env n tokenAddress =
                 Some (case baseResult of
                         None \<Rightarrow> None
                       | Some b \<Rightarrow> Some (jsTimes
                           (priceInBaseToken env poolState (toLowerCase tokenAddress)) b))"
    if h: "\<not> isUsdStablecoin tokenAddress n"
      "selectBestRoute env n (routesOf env n tokenAddress) = Some bestRoute"
      "getPoolState env (pool bestRoute) = Some poolState"
      "\<not> isUsdStablecoin (base bestRoute) n"
    for bestRoute poolState
  proof -
    from full h have "afterRoute env n tokenAddress (computeSpotPrice env n) = Some r"
      by (subst (asm) computeSpotPrice_unfold) simp
    with h show ?thesis
      by (subst computeSpotPrice_unfold) (auto simp: afterRoute_def split: option.splits)
  qed
  from r full hop show ?thesis by auto
qed


theorem computeSpotPrice_two_hop_terminates_witness:
  "twoHopMaximum exampleEnv 1 exampleToken \<and>
   \<not> isUsdStablecoin exampleToken 1 \<and>
   selectBestRoute exampleEnv 1 (routesOf exampleEnv 1 exampleToken) =
     Some \<lparr>pool = ''0xpool1'', base = WETH\<rparr> \<and>
   getPoolState exampleEnv ''0xpool1'' = Some exampleTokenPool \<and>
   \<not> isUsdStablecoin WETH 1 \<and>
   computeSpotPrice exampleEnv 1 exampleToken = Some (Some (Finite 10000))"
proof -
  have h: "twoHopMaximum exampleEnv 1 exampleToken"
    by code_simp
  have ns: "\<not> isUsdStablecoin exampleToken 1 \<and> \<not> isUsdStablecoin WETH 1"
    by code_simp
  have sel: "selectBestRoute exampleEnv 1 (routesOf exampleEnv 1 exampleToken) =
               Some \<lparr>pool = ''0xpool1'', base = WETH\<rparr>"
    by code_simp
  have st: "getPoolState exampleEnv ''0xpool1'' = Some exampleTokenPool"
    by code_simp
  have "computeSpotPrice_depth 2 exampleEnv 1 exampleToken = Some (Some (Finite 10000))"
    by code_simp
  with h ns sel st computeSpotPrice_two_hop_terminates [OF h] show ?thesis by simp
qed

text \<open>
  Claim C10. The inversion is guarded: \<^verbatim>\<open>priceInBaseToken\<close> never divides by zero, whatever
  the pool state. When the raw price is zero (as it is for \<open>sqrtPriceX96 = 0\<close>) and the priced
  token is not \<open>token0\<close>, the hop's price is the number 0, and with a stablecoin base
  \<^verbatim>\<open>computeSpotPrice\<close> returns that 0 rather than \<^verbatim>\<open>null\<close>.
\<close>

theorem priceInBaseToken_zero_guard:
  "priceInBaseToken env poolState tok \<noteq> NonFinite \<and>
   (sqrtPriceX96 poolState = 0 \<longrightarrow> rawPrice env poolState = 0) \<and>
   (toLowerCase (token0 poolState) \<noteq> tok \<and> rawPrice env poolState = 0 \<longrightarrow>
      priceInBaseToken env poolState tok = Finite 0) \<and>
   (\<not> isUsdStablecoin tokenAddress n \<and>
      selectBestRoute env n (routesOf env n tokenAddress) = Some bestRoute \<and>
      getPoolState env (pool bestRoute) = Some poolState \<and>
      isUsdStablecoin (base bestRoute) n \<and>
      toLowerCase (token0 poolState) \<noteq> toLowerCase tokenAddress \<and>
      rawPrice env poolState = 0 \<longrightarrow>
      computeSpotPrice env n tokenAddress = Some (Some (Finite 0)))"
proof -
  have fin: "priceInBaseToken env poolState tok \<noteq> NonFinite"
    by (simp add: priceInBaseToken_def jsDivide_def Let_def)
  have raw: "rawPrice env poolState = 0" if "sqrtPriceX96 poolState = 0"
    using that by (simp add: rawPrice_def)
  have zero: "priceInBaseToken env poolState t = Finite 0"
    if "toLowerCase (token0 poolState) \<noteq> t" and "rawPrice env poolState = 0" for t
    using that by (simp add: priceInBaseToken_other)
  from fin raw zero computeSpotPrice_stable_base [of tokenAddress n env bestRoute poolState]
  show ?thesis by simp
qed

theorem priceInBaseToken_zero_guard_witness:
  "sqrtPriceX96 unpricedPool = 0 \<and>
   rawPrice exampleEnv unpricedPool = 0 \<and>
   \<not> isUsdStablecoin ''0x4444444444444444444444444444444444444444'' 1 \<and>
   selectBestRoute exampleEnv 1 (routesOf exampleEnv 1 ''0x4444444444444444444444444444444444444444'')
     = Some \<lparr>pool = ''0xpool4'', base = USDC\<rparr> \<and>
   getPoolState exampleEnv ''0xpool4'' = Some unpricedPool \<and>
   isUsdStablecoin USDC 1 \<and>
   toLowerCase (token0 unpricedPool) \<noteq> toLowerCase ''0x4444444444444444444444444444444444444444'' \<and>
   priceInBaseToken exampleEnv unpricedPool ''0x4444444444444444444444444444444444444444''
     = Finite 0 \<and>
   computeSpotPrice exampleEnv 1 ''0x4444444444444444444444444444444444444444''
     = Some (Some (Finite 0))"
proof -
  have z: "sqrtPriceX96 unpricedPool = 0" by (simp add: unpricedPool_def)
  have ns: "\<not> isUsdStablecoin ''0x4444444444444444444444444444444444444444'' 1 \<and>
            isUsdStablecoin USDC 1"
    by code_simp
  have sel: "selectBestRoute exampleEnv 1
               (routesOf exampleEnv 1 ''0x4444444444444444444444444444444444444444'')
             = Some \<lparr>pool = ''0xpool4'', base = USDC\<rparr>"
    by code_simp
  have st: "getPoolState exampleEnv ''0xpool4'' = Some unpricedPool"
    by code_simp
  have side: "toLowerCase (token0 unpricedPool) \<noteq>
              toLowerCase ''0x4444444444444444444444444444444444444444''"
    by code_simp
  have low: "toLowerCase ''0x4444444444444444444444444444444444444444''
             = ''0x4444444444444444444444444444444444444444''"
    by code_simp
  from z ns sel st side low
    priceInBaseToken_zero_guard
      [of exampleEnv unpricedPool "''0x4444444444444444444444444444444444444444''"
          "''0x4444444444444444444444444444444444444444''" 1
          "\<lparr>pool = ''0xpool4'', base = USDC\<rparr>"]
  show ?thesis by simp
qed

section \<open>Properties of the interest tracker\<close>

lemma trackRoute_distinct:
  "distinct (map fst alive) \<Longrightarrow> distinct (map fst (trackRoute now cid alive route))"
  by (simp add: trackRoute_def Let_def distinct_update split: option.splits)




lemma trackRoutes_distinct:
  "distinct (map fst alive) \<Longrightarrow> distinct (map fst (foldl (trackRoute now cid) alive routes))"
  by (induction routes arbitrary: alive) (simp_all add: trackRoute_distinct)





lemma handleTokenInterest_routes:
  "handleTokenInterest now tokens cid alive =
     foldl (trackRoute now cid) alive (concat (map pricingPools tokens))"
  by (induction tokens arbitrary: alive) (simp_all add: handleTokenInterest_def)

lemma handleTokenInterest_distinct:
  "distinct (map fst alive) \<Longrightarrow> distinct (map fst (handleTokenInterest now tokens cid alive))"
  by (simp add: handleTokenInterest_routes trackRoutes_distinct)




lemma decrementRefCount_distinct:
  "distinct (map fst alive) \<Longrightarrow> distinct (map fst (decrementRefCount a cid alive))"
  by (simp add: decrementRefCount_def Let_def distinct_update split: option.splits)




lemma applyCall_distinct:
  "distinct (map fst alive) \<Longrightarrow> distinct (map fst (applyCall alive call))"
  by (cases call) (simp_all add: handleTokenInterest_distinct decrementRefCount_distinct)



lemma runCalls_distinct:
  "distinct (map fst alive) \<Longrightarrow> distinct (map fst (runCalls calls alive))"
  unfolding runCalls_def by (induction calls arbitrary: alive) (simp_all add: applyCall_distinct)









section \<open>Properties of the pool eviction sweep\<close>

text \<open>
  The controller establishes the keying that the sweep relies on: every history of calls,
  from the empty alive set, files each pool once and under its own chain and address.
\<close>

lemma keyedByPool_update:
  "keyedByPool alive \<Longrightarrow> k = poolKeyOf v \<Longrightarrow> keyedByPool (AList.update k v alive)"
  by (induction alive) (auto simp: keyedByPool_def)

lemma keyedByPool_lookup:
  "keyedByPool alive \<Longrightarrow> map_of alive k = Some p \<Longrightarrow> k = poolKeyOf p"
  by (induction alive) (auto simp: keyedByPool_def split: if_splits)

lemma trackRoute_keyed: "keyedByPool alive \<Longrightarrow> keyedByPool (trackRoute now cid alive route)"
proof (cases "map_of alive (cid, pool route)")
  case None
  assume "keyedByPool alive"
  with None show ?thesis
    by (simp add: trackRoute_def Let_def keyedByPool_update poolKeyOf_def)
next
  case (Some tracked)
  assume k: "keyedByPool alive"
  from keyedByPool_lookup [OF k Some] have "(cid, pool route) = poolKeyOf tracked" .
  then have "(cid, pool route) =
      poolKeyOf (tracked\<lparr>lastRequestTime := now, requestCount := requestCount tracked + 1\<rparr>)"
    by (simp add: poolKeyOf_def)
  with k Some show ?thesis
    by (simp add: trackRoute_def Let_def keyedByPool_update)
qed

lemma decrementRefCount_keyed:
  "keyedByPool alive \<Longrightarrow> keyedByPool (decrementRefCount a cid alive)"
proof (cases "map_of alive (cid, a)")
  case None
  assume "keyedByPool alive"
  with None show ?thesis by (simp add: decrementRefCount_def)
next
  case (Some tracked)
  assume k: "keyedByPool alive"
  from keyedByPool_lookup [OF k Some] have "(cid, a) = poolKeyOf tracked" .
  then have "(cid, a) = poolKeyOf (tracked\<lparr>refCount := decrementedClamped (refCount tracked)\<rparr>)"
    by (simp add: poolKeyOf_def)
  with k Some show ?thesis
    by (simp add: decrementRefCount_def Let_def keyedByPool_update)
qed

lemma trackRoutes_keyed:
  "keyedByPool alive \<Longrightarrow> keyedByPool (foldl (trackRoute now cid) alive routes)"
  by (induction routes arbitrary: alive) (simp_all add: trackRoute_keyed)

lemma applyCall_keyed: "keyedByPool alive \<Longrightarrow> keyedByPool (applyCall alive call)"
  by (cases call)
     (simp_all add: handleTokenInterest_routes trackRoutes_keyed decrementRefCount_keyed)

lemma runCalls_keyed: "keyedByPool alive \<Longrightarrow> keyedByPool (runCalls calls alive)"
  unfolding runCalls_def by (induction calls arbitrary: alive) (simp_all add: applyCall_keyed)

lemma runCalls_wellKeyed:
  "wellKeyed \<lparr>poolController = runCalls calls [], sharedStateCache = c,
               poolsWithZeroRefCount = []\<rparr>"
proof -
  have "keyedByPool (runCalls calls [])"
    by (rule runCalls_keyed) (simp add: keyedByPool_def)
  moreover have "distinct (map fst (runCalls calls []))"
    by (rule runCalls_distinct) simp
  ultimately show ?thesis
    by (simp add: wellKeyed_def)
qed




















section \<open>Properties of refresh-result processing\<close>

lemma processResult_equal_block:
  assumes "aliveSet s (poolAddress result) = Some p"
    and "blockNumber result = lastBlockSeen p"
    and "cache s (poolAddress result) = Some entry"
  shows "processResult computePrice now tick s result =
           Returned (s\<lparr>cache := (cache s)(poolAddress result \<mapsto> entry\<lparr>ttl := now + 30000\<rparr>)\<rparr>)"
  using assms by (simp add: processResult_def)

lemma processResult_new_block:
  assumes "aliveSet s (poolAddress result) = Some p"
    and "blockNumber result \<noteq> lastBlockSeen p"
  shows "\<exists>s'. processResult computePrice now tick s result = Returned s' \<and>
           map_option blockNumber (cache s' (poolAddress result)) = Some (blockNumber result) \<and>
           map_option tickId (cache s' (poolAddress result)) = Some tick \<and>
           map_option lastBlockSeen (aliveSet s' (poolAddress result)) = Some (blockNumber result)"
  using assms by (simp add: processResult_def Let_def)

lemma processResult_other_pools:
  "a \<noteq> poolAddress result \<Longrightarrow>
   cache (stateOf (processResult computePrice now tick s result)) a = cache s a"
  by (simp add: processResult_def Let_def split: option.splits)

lemma processResult_not_older:
  assumes "cache s (poolAddress result) = Some entry"
    and "blockNumber entry \<le> blockNumber result"
  shows "\<exists>entry'. cache (stateOf (processResult computePrice now tick s result)) (poolAddress result)
                     = Some entry' \<and>
                  blockNumber entry \<le> blockNumber entry'"
  using assms by (simp add: processResult_def Let_def split: option.splits)

text \<open>
  Claim C2, as amended. \<^verbatim>\<open>processMulticallResults\<close> compares a result's block number with
  the pool's \<^verbatim>\<open>lastBlockSeen\<close> for equality only. A result with the same block number extends
  the entry's \<^verbatim>\<open>ttl\<close> and changes nothing else, neither block number nor price nor the pool.
  A result with any other block number, higher or lower, replaces the entry and stores the
  result's block number in the entry and in \<^verbatim>\<open>lastBlockSeen\<close>. So the block number stored in
  a pool's entry does not decrease when the result's block number is at least the stored
  one, and the entries of other pools are not touched.
\<close>

theorem processResult_block_number:
  assumes "aliveSet s (poolAddress result) = Some p"
  shows
    "(blockNumber result = lastBlockSeen p \<and> cache s (poolAddress result) = Some entry \<longrightarrow>
        processResult computePrice now tick s result =
          Returned (s\<lparr>cache := (cache s)(poolAddress result \<mapsto> entry\<lparr>ttl := now + 30000\<rparr>)\<rparr>)) \<and>
     (blockNumber result \<noteq> lastBlockSeen p \<longrightarrow>
        (\<exists>s'. processResult computePrice now tick s result = Returned s' \<and>
           map_option blockNumber (cache s' (poolAddress result)) = Some (blockNumber result) \<and>
           map_option lastBlockSeen (aliveSet s' (poolAddress result)) =
             Some (blockNumber result))) \<and>
     (cache s (poolAddress result) = Some entry \<and> blockNumber entry \<le> blockNumber result \<longrightarrow>
        (\<exists>entry'. cache (stateOf (processResult computePrice now tick s result))
                     (poolAddress result) = Some entry' \<and>
                   blockNumber entry \<le> blockNumber entry')) \<and>
     (a \<noteq> poolAddress result \<longrightarrow>
        cache (stateOf (processResult computePrice now tick s result)) a = cache s a)"
proof -
  have new: "\<exists>s'. processResult computePrice now tick s result = Returned s' \<and>
           map_option blockNumber (cache s' (poolAddress result)) = Some (blockNumber result) \<and>
           map_option lastBlockSeen (aliveSet s' (poolAddress result)) = Some (blockNumber result)"
    if "blockNumber result \<noteq> lastBlockSeen p"
    using processResult_new_block [OF assms that, of computePrice now tick] by blast
  from new processResult_equal_block [OF assms, of entry computePrice now tick]
    processResult_not_older [of s result entry computePrice now tick]
    processResult_other_pools [of a result computePrice now tick s]
  show ?thesis by blast
qed

theorem processResult_block_number_witness:
  "aliveSet schedulerState ''0xpoolA'' = Some (schedulerPool ''0xpoolA'' 10 2500) \<and>
   cache schedulerState ''0xpoolA'' = Some (entryAt ''0xpoolA'' 10 2500 0) \<and>
   processResult flatPrice 40000 1 schedulerState (resultAt ''0xpoolA'' 10 True) =
     Returned (schedulerState\<lparr>cache := (cache schedulerState)
       (''0xpoolA'' \<mapsto> (entryAt ''0xpoolA'' 10 2500 0)\<lparr>ttl := 70000\<rparr>)\<rparr>) \<and>
   map_option blockNumber
     (cache (stateOf (processResult flatPrice 40000 1 schedulerState (resultAt ''0xpoolA'' 11 True)))
        ''0xpoolA'') = Some 11 \<and>
   cache (stateOf (processResult flatPrice 40000 1 schedulerState (resultAt ''0xpoolA'' 11 True)))
     ''0xpoolB'' = cache schedulerState ''0xpoolB''"
proof -
  have al: "aliveSet schedulerState ''0xpoolA'' = Some (schedulerPool ''0xpoolA'' 10 2500)"
    and ca: "cache schedulerState ''0xpoolA'' = Some (entryAt ''0xpoolA'' 10 2500 0)"
    by (simp_all add: schedulerState_def)
  have pa: "poolAddress (resultAt ''0xpoolA'' 10 True) = ''0xpoolA''"
    "poolAddress (resultAt ''0xpoolA'' 11 True) = ''0xpoolA''"
    "blockNumber (resultAt ''0xpoolA'' 10 True) = lastBlockSeen (schedulerPool ''0xpoolA'' 10 2500)"
    "blockNumber (resultAt ''0xpoolA'' 11 True) \<noteq> lastBlockSeen (schedulerPool ''0xpoolA'' 10 2500)"
    "blockNumber (resultAt ''0xpoolA'' 11 True) = 11"
    by (simp_all add: resultAt_def schedulerPool_def)
  have al10: "aliveSet schedulerState (poolAddress (resultAt ''0xpoolA'' 10 True)) =
                Some (schedulerPool ''0xpoolA'' 10 2500)"
    and al11: "aliveSet schedulerState (poolAddress (resultAt ''0xpoolA'' 11 True)) =
                Some (schedulerPool ''0xpoolA'' 10 2500)"
    using al pa by simp_all
  note same = processResult_block_number
    [OF al10, where entry = "entryAt ''0xpoolA'' 10 2500 0" and computePrice = flatPrice
       and now = 40000 and tick = 1 and a = "''0xpoolB''"]
  note newer = processResult_block_number
    [OF al11, where entry = "entryAt ''0xpoolA'' 10 2500 0" and computePrice = flatPrice
       and now = 40000 and tick = 1 and a = "''0xpoolB''"]
  from same ca pa
  have r1: "processResult flatPrice 40000 1 schedulerState (resultAt ''0xpoolA'' 10 True) =
     Returned (schedulerState\<lparr>cache := (cache schedulerState)
       (''0xpoolA'' \<mapsto> (entryAt ''0xpoolA'' 10 2500 0)\<lparr>ttl := 70000\<rparr>)\<rparr>)"
    by simp
  from newer pa
  have r2: "map_option blockNumber
     (cache (stateOf (processResult flatPrice 40000 1 schedulerState (resultAt ''0xpoolA'' 11 True)))
        ''0xpoolA'') = Some 11"
    by auto
  from newer pa
  have r3: "cache (stateOf (processResult flatPrice 40000 1 schedulerState
                     (resultAt ''0xpoolA'' 11 True))) ''0xpoolB''
            = cache schedulerState ''0xpoolB''"
    by simp
  from al ca r1 r2 r3 show ?thesis by simp
qed

text \<open>
  The claim as stated fails on a result that is older than the stored entry: pool A is
  cached at block 10, a result for block 5 arrives (from a batch that completed late), and
  the entry is overwritten with block 5.
\<close>

theorem processMulticallResults_older_block_counterexample:
  "map_option blockNumber (cache schedulerState ''0xpoolA'') = Some 10 \<and>
   map_option blockNumber
     (cache (stateOf (processMulticallResults flatPrice 40000 [resultAt ''0xpoolA'' 5 True]
                        schedulerState)) ''0xpoolA'') = Some 5"
  by code_simp

lemma generateTickId_fresh:
  "fst (generateTickId s) = Suc (tickCounter s) \<and>
   tickCounter (snd (generateTickId s)) = Suc (tickCounter s)"
  by (simp add: generateTickId_def)

text \<open>
  Claim C3 does not hold of the code. \<^verbatim>\<open>processMulticallResults\<close> calls
  \<^verbatim>\<open>generateTickId\<close> itself, once per result list it is handed, so two batches of one cycle
  get two tick ids: with pool A and pool B refreshed in the same cycle by different batches,
  A's entry carries tick 1 and B's entry tick 2.
\<close>

theorem processCycle_tick_per_batch:
  "map_option tickId
     (cache (processCycle flatPrice 40000
               [[resultAt ''0xpoolA'' 11 True], [resultAt ''0xpoolB'' 11 True]] schedulerState)
        ''0xpoolA'') = Some 1 \<and>
   map_option tickId
     (cache (processCycle flatPrice 40000
               [[resultAt ''0xpoolA'' 11 True], [resultAt ''0xpoolB'' 11 True]] schedulerState)
        ''0xpoolB'') = Some 2"
  by code_simp


section \<open>Properties of the failure isolation\<close>

lemma scheduleRetry_cache: "cache (scheduleRetry now d a s) = cache s"
  by (simp add: scheduleRetry_def split: option.splits)

lemma scheduleRetry_aliveSet:
  "aliveSet (scheduleRetry now d a s) a' =
     (if a' = a then map_option (\<lambda>p. p\<lparr>nextRefresh := now + d\<rparr>) (aliveSet s a) else aliveSet s a')"
  by (simp add: scheduleRetry_def split: option.splits)

lemma updateCache_aliveSet: "aliveSet (updateCache computePrice now tick r s) = aliveSet s"
  by (simp add: updateCache_def)

lemma updateCache_cache_other:
  "a \<noteq> poolAddress r \<Longrightarrow> cache (updateCache computePrice now tick r s) a = cache s a"
  by (simp add: updateCache_def)

lemma scheduleRetry_due: "isAlive a s \<Longrightarrow> retryDue (now + d) a (scheduleRetry now d a s)"
  by (auto simp: retryDue_def isAlive_def scheduleRetry_aliveSet)

lemma scheduleRetry_keeps_due:
  "retryDue (now + d) a s \<Longrightarrow> retryDue (now + d) a (scheduleRetry now d a' s)"
  by (auto simp: retryDue_def scheduleRetry_aliveSet)

lemma scheduleRetry_keeps_alive: "isAlive a s \<Longrightarrow> isAlive a (scheduleRetry now d a' s)"
  by (auto simp: isAlive_def scheduleRetry_aliveSet)

lemma handleResult_keeps_due:
  "retryDue (now + d) a s \<Longrightarrow> retryDue (now + d) a (handleResult computePrice now d tick s r)"
  by (simp add: handleResult_def scheduleRetry_keeps_due)
     (simp add: retryDue_def updateCache_aliveSet)

lemma handleResult_keeps_alive:
  "isAlive a s \<Longrightarrow> isAlive a (handleResult computePrice now d tick s r)"
  by (simp add: handleResult_def scheduleRetry_keeps_alive)
     (simp add: isAlive_def updateCache_aliveSet)

lemma handleResult_failed_due:
  "\<not> success r \<Longrightarrow> isAlive (poolAddress r) s \<Longrightarrow>
   retryDue (now + d) (poolAddress r) (handleResult computePrice now d tick s r)"
  by (simp add: handleResult_def scheduleRetry_due)

lemma handleResult_cache:
  "\<not> (poolAddress r = a \<and> success r) \<Longrightarrow>
   cache (handleResult computePrice now d tick s r) a = cache s a"
  by (auto simp: handleResult_def scheduleRetry_cache updateCache_cache_other)

lemma retryAll_cache:
  "cache (foldl (\<lambda>s' p. scheduleRetry now d (address p) s') s batch) = cache s"
  by (induction batch arbitrary: s) (simp_all add: scheduleRetry_cache)

lemma retryAll_keeps_due:
  "retryDue (now + d) a s \<Longrightarrow>
   retryDue (now + d) a (foldl (\<lambda>s' p. scheduleRetry now d (address p) s') s batch)"
  by (induction batch arbitrary: s) (simp_all add: scheduleRetry_keeps_due)

lemma retryAll_due:
  assumes "p \<in> set batch" and "isAlive (address p) s"
  shows "retryDue (now + d) (address p)
           (foldl (\<lambda>s' p. scheduleRetry now d (address p) s') s batch)"
  using assms
proof (induction batch arbitrary: s)
  case Nil
  then show ?case by simp
next
  case (Cons q batch)
  show ?case
  proof (cases "q = p")
    case True
    with Cons.prems(2) have "retryDue (now + d) (address p) (scheduleRetry now d (address q) s)"
      by (simp add: scheduleRetry_due)
    then show ?thesis by (simp add: retryAll_keeps_due)
  next
    case False
    with Cons.prems have "p \<in> set batch" by simp
    moreover from Cons.prems(2) have "isAlive (address p) (scheduleRetry now d (address q) s)"
      by (rule scheduleRetry_keeps_alive)
    ultimately show ?thesis using Cons.IH by simp
  qed
qed

lemma handleAll_keeps_due:
  "retryDue (now + d) a s \<Longrightarrow>
   retryDue (now + d) a (foldl (handleResult computePrice now d tick) s results)"
  by (induction results arbitrary: s) (simp_all add: handleResult_keeps_due)

lemma handleAll_failed_due:
  assumes "r \<in> set results" and "\<not> success r" and "isAlive (poolAddress r) s"
  shows "retryDue (now + d) (poolAddress r)
           (foldl (handleResult computePrice now d tick) s results)"
  using assms
proof (induction results arbitrary: s)
  case Nil
  then show ?case by simp
next
  case (Cons q results)
  show ?case
  proof (cases "q = r")
    case True
    with Cons.prems have "retryDue (now + d) (poolAddress r)
                            (handleResult computePrice now d tick s q)"
      by (simp add: handleResult_failed_due)
    then show ?thesis by (simp add: handleAll_keeps_due)
  next
    case False
    with Cons.prems have "r \<in> set results" by simp
    moreover from Cons.prems(3)
    have "isAlive (poolAddress r) (handleResult computePrice now d tick s q)"
      by (rule handleResult_keeps_alive)
    ultimately show ?thesis using Cons.IH Cons.prems(2) by simp
  qed
qed

lemma handleAll_cache:
  assumes "\<forall>r \<in> set results. poolAddress r = a \<longrightarrow> \<not> success r"
  shows "cache (foldl (handleResult computePrice now d tick) s results) a = cache s a"
  using assms
  by (induction results arbitrary: s) (simp_all add: handleResult_cache)

text \<open>
  Claim C1. When \<^verbatim>\<open>multicall.execute\<close> throws, the whole cache is as it was and every pool
  of the batch that the alive set holds is due again at \<open>now + retryDelay\<close>. When it returns
  per-pool results, the cache entry of an address with no successful result is as it was,
  and every alive pool with a failed result is due again at \<open>now + retryDelay\<close>; a cache
  entry that did change belongs to an address with a successful result.
\<close>

theorem refreshBatch_failure_isolation:
  "cache (refreshBatch computePrice now retryDelay tick (Inl err) batch s) = cache s \<and>
   (\<forall>p \<in> set batch. isAlive (address p) s \<longrightarrow>
      retryDue (now + retryDelay) (address p)
        (refreshBatch computePrice now retryDelay tick (Inl err) batch s)) \<and>
   ((\<forall>r \<in> set results. poolAddress r = a \<longrightarrow> \<not> success r) \<longrightarrow>
      cache (refreshBatch computePrice now retryDelay tick (Inr results) batch s) a = cache s a) \<and>
   (\<forall>r \<in> set results. \<not> success r \<and> isAlive (poolAddress r) s \<longrightarrow>
      retryDue (now + retryDelay) (poolAddress r)
        (refreshBatch computePrice now retryDelay tick (Inr results) batch s)) \<and>
   (cache (refreshBatch computePrice now retryDelay tick (Inr results) batch s) a \<noteq> cache s a \<longrightarrow>
      (\<exists>r \<in> set results. poolAddress r = a \<and> success r))"
proof -
  have t1: "cache (refreshBatch computePrice now retryDelay tick (Inl err) batch s) = cache s"
    by (simp add: refreshBatch_def retryAll_cache)
  have t2: "retryDue (now + retryDelay) (address p)
              (refreshBatch computePrice now retryDelay tick (Inl err) batch s)"
    if "p \<in> set batch" and "isAlive (address p) s" for p
    using that by (simp add: refreshBatch_def retryAll_due)
  have r1: "cache (refreshBatch computePrice now retryDelay tick (Inr results) batch s) a'
              = cache s a'"
    if "\<forall>r \<in> set results. poolAddress r = a' \<longrightarrow> \<not> success r" for a'
    using that by (simp add: refreshBatch_def handleAll_cache)
  have r2: "retryDue (now + retryDelay) (poolAddress r)
              (refreshBatch computePrice now retryDelay tick (Inr results) batch s)"
    if "r \<in> set results" and "\<not> success r" and "isAlive (poolAddress r) s" for r
    using that by (simp add: refreshBatch_def handleAll_failed_due)
  from t1 t2 r1 [of a] r2 show ?thesis by blast
qed

theorem refreshBatch_failure_isolation_witness:
  "cache (refreshBatch flatPrice 40000 1000 1 (Inl NetworkError)
            [schedulerPool ''0xpoolA'' 10 2500, schedulerPool ''0xpoolB'' 10 2500] schedulerState)
     = cache schedulerState \<and>
   retryDue 41000 ''0xpoolA''
     (refreshBatch flatPrice 40000 1000 1 (Inl NetworkError)
        [schedulerPool ''0xpoolA'' 10 2500, schedulerPool ''0xpoolB'' 10 2500] schedulerState) \<and>
   cache (refreshBatch flatPrice 40000 1000 1
            (Inr [resultAt ''0xpoolA'' 11 True, resultAt ''0xpoolB'' 11 False])
            [schedulerPool ''0xpoolA'' 10 2500, schedulerPool ''0xpoolB'' 10 2500] schedulerState)
     ''0xpoolB'' = cache schedulerState ''0xpoolB'' \<and>
   retryDue 41000 ''0xpoolB''
     (refreshBatch flatPrice 40000 1000 1
        (Inr [resultAt ''0xpoolA'' 11 True, resultAt ''0xpoolB'' 11 False])
        [schedulerPool ''0xpoolA'' 10 2500, schedulerPool ''0xpoolB'' 10 2500] schedulerState) \<and>
   map_option blockNumber
     (cache (refreshBatch flatPrice 40000 1000 1
               (Inr [resultAt ''0xpoolA'' 11 True, resultAt ''0xpoolB'' 11 False])
               [schedulerPool ''0xpoolA'' 10 2500, schedulerPool ''0xpoolB'' 10 2500] schedulerState)
        ''0xpoolA'') = Some 11"
proof -
  let ?batch = "[schedulerPool ''0xpoolA'' 10 2500, schedulerPool ''0xpoolB'' 10 2500]"
  let ?results = "[resultAt ''0xpoolA'' 11 True, resultAt ''0xpoolB'' 11 False]"
  have alive: "isAlive ''0xpoolA'' schedulerState" "isAlive ''0xpoolB'' schedulerState"
    by (simp_all add: isAlive_def schedulerState_def)
  have addr: "address (schedulerPool ''0xpoolA'' 10 2500) = ''0xpoolA''"
    "poolAddress (resultAt ''0xpoolB'' 11 False) = ''0xpoolB''"
    "poolAddress (resultAt ''0xpoolA'' 11 True) = ''0xpoolA''"
    "\<not> success (resultAt ''0xpoolB'' 11 False)"
    by (simp_all add: schedulerPool_def resultAt_def)
  have time: "(40000::int) + 1000 = 41000" by simp
  have written: "map_option blockNumber
     (cache (refreshBatch flatPrice 40000 1000 1 (Inr ?results) ?batch schedulerState)
        ''0xpoolA'') = Some 11"
    by (simp add: refreshBatch_def handleResult_def updateCache_def scheduleRetry_def
          resultAt_def schedulerState_def)
  note fi = refreshBatch_failure_isolation
    [where computePrice = flatPrice and now = 40000 and retryDelay = 1000 and tick = 1
       and err = NetworkError and batch = ?batch and s = schedulerState
       and results = ?results and a = "''0xpoolB''"]
  from fi have c1: "cache (refreshBatch flatPrice 40000 1000 1 (Inl NetworkError) ?batch
                      schedulerState) = cache schedulerState"
    by blast
  from fi alive addr time
  have c2: "retryDue 41000 ''0xpoolA''
              (refreshBatch flatPrice 40000 1000 1 (Inl NetworkError) ?batch schedulerState)"
    by force
  from fi addr
  have c3: "cache (refreshBatch flatPrice 40000 1000 1 (Inr ?results) ?batch schedulerState)
              ''0xpoolB'' = cache schedulerState ''0xpoolB''"
    by simp
  from fi alive addr time
  have c4: "retryDue 41000 ''0xpoolB''
              (refreshBatch flatPrice 40000 1000 1 (Inr ?results) ?batch schedulerState)"
    by force
  from c1 c2 c3 c4 written show ?thesis by blast
qed

end
